theory Spec2Isabelle
  imports Complex_Main "HOL-Library.Monad_Syntax"
begin

section \<open>Data model\<close>

text \<open>
  The library works on JavaScript numbers. Coordinates, distances and tolerances are
  modelled as exact reals (rounding is not modelled); array indices, which the code
  keeps integral, are \<^typ>\<open>nat\<close> where the code counts upwards from zero and
  \<^typ>\<open>int\<close> where it subtracts. A read outside an array yields JavaScript's
  \<open>undefined\<close>, modelled as \<^const>\<open>None\<close>; using such a value as a point raises
  a TypeError, so every function that may do so returns an option and \<^const>\<open>None\<close>
  stands for the raised TypeError. Optional parameters are explicit arguments; the
  defaults appear where the code relies on them.

  Points are values, compared by their coordinates. JavaScript's \<open>indexOf\<close> compares
  array objects by identity; the two agree on a polygon whose vertices are distinct
  objects with pairwise different coordinates.
\<close>

type_synonym Point = "real \<times> real"
type_synonym Polygon = "Point list"

text \<open>\<open>Number.MAX_VALUE\<close>, the largest finite double.\<close>

definition MAX_VALUE :: real where
  "MAX_VALUE = (2 ^ 53 - 1) * 2 ^ 971"

text \<open>
  The remainder operator \<open>%\<close> on integers: the result has the sign of the dividend.
  The divisor zero (result NaN) is handled where it can occur.
\<close>

definition js_rem :: "int \<Rightarrow> int \<Rightarrow> int" where
  "js_rem a b = sgn a * (\<bar>a\<bar> mod \<bar>b\<bar>)"

text \<open>Reading \<open>xs[k]\<close>: \<open>undefined\<close> outside \<open>0 .. length - 1\<close>.\<close>

definition array_get :: "'a list \<Rightarrow> int \<Rightarrow> 'a option" where
  "array_get xs k = (if 0 \<le> k \<and> k < int (length xs) then Some (xs ! nat k) else None)"

section \<open>Geometric predicates\<close>

definition scalarsEqual :: "real \<Rightarrow> real \<Rightarrow> real \<Rightarrow> bool" where
  "scalarsEqual a b precision = (\<bar>a - b\<bar> \<le> precision)"

definition pointsEqual :: "Point \<Rightarrow> Point \<Rightarrow> real \<Rightarrow> bool" where
  "pointsEqual a b precision =
     (scalarsEqual (fst a) (fst b) precision \<and> scalarsEqual (snd a) (snd b) precision)"

definition triangleArea :: "Point \<Rightarrow> Point \<Rightarrow> Point \<Rightarrow> real" where
  "triangleArea a b c =
     (fst b - fst a) * (snd c - snd a) - (fst c - fst a) * (snd b - snd a)"

definition isLeft :: "Point \<Rightarrow> Point \<Rightarrow> Point \<Rightarrow> bool" where
  "isLeft a b c = (triangleArea a b c > 0)"

definition isLeftOn :: "Point \<Rightarrow> Point \<Rightarrow> Point \<Rightarrow> bool" where
  "isLeftOn a b c = (triangleArea a b c \<ge> 0)"

definition isRight :: "Point \<Rightarrow> Point \<Rightarrow> Point \<Rightarrow> bool" where
  "isRight a b c = (triangleArea a b c < 0)"

definition isRightOn :: "Point \<Rightarrow> Point \<Rightarrow> Point \<Rightarrow> bool" where
  "isRightOn a b c = (triangleArea a b c \<le> 0)"

definition sqdist :: "Point \<Rightarrow> Point \<Rightarrow> real" where
  "sqdist a b = (let dx = fst b - fst a; dy = snd b - snd a in dx * dx + dy * dy)"

section \<open>Cyclic indexing\<close>

text \<open>
  \<open>polygon[i < 0 ? (i % s) + s : i % s]\<close> with \<open>s = polygon.length\<close>. For the empty
  polygon the index is NaN and the read is \<open>undefined\<close>.
\<close>

definition polygonAt :: "Polygon \<Rightarrow> int \<Rightarrow> Point option" where
  "polygonAt polygon i =
     (let s = int (length polygon) in
      if s = 0 then None
      else array_get polygon (if i < 0 then js_rem i s + s else js_rem i s))"

lemma polygonAt_nonneg:
  assumes "0 \<le> i" and "polygon \<noteq> []"
  shows "polygonAt polygon i = Some (polygon ! (nat i mod length polygon))"
proof -
  let ?s = "int (length polygon)"
  have s: "0 < ?s" using assms(2) by simp
  have r: "js_rem i ?s = i mod ?s"
    using assms(1) s by (cases "i = 0") (simp_all add: js_rem_def)
  have b: "0 \<le> i mod ?s" "i mod ?s < ?s" using s by simp_all
  have n: "nat (i mod ?s) = nat i mod length polygon"
    using assms(1) by (simp add: nat_mod_distrib)
  show ?thesis
    using assms(1) s b n by (simp add: polygonAt_def array_get_def r Let_def)
qed



section \<open>Polygon utilities\<close>

text \<open>
  \<open>polygonAppend\<close> pushes \<open>poly[from], ..., poly[to - 1]\<close>; \<open>polygonCopy\<close> clears
  its target and pushes \<open>polygon[i..j]\<close>, or \<open>polygon[0..j]\<close> followed by
  \<open>polygon[i..]\<close> when \<open>i \<ge> j\<close>. Every caller passes indices inside the array.
\<close>

definition polygonAppend :: "Polygon \<Rightarrow> Polygon \<Rightarrow> nat \<Rightarrow> nat \<Rightarrow> Polygon" where
  "polygonAppend polygon poly from to = polygon @ map (\<lambda>k. poly ! k) [from..<to]"






definition polygonIsReflex :: "Polygon \<Rightarrow> int \<Rightarrow> bool option" where
  "polygonIsReflex polygon i =
     do {
       a \<leftarrow> polygonAt polygon (i - 1);
       b \<leftarrow> polygonAt polygon i;
       c \<leftarrow> polygonAt polygon (i + 1);
       Some (isRight a b c)
     }"

section \<open>Line and segment intersection\<close>

text \<open>
  \<open>lineInt\<close> and \<open>getIntersectionPoint\<close> divide by the determinant unless it is within
  the tolerance of zero. A division by a zero determinant gives NaN or an infinity in
  both coordinates; such a result is no point of the plane and is modelled as
  \<^const>\<open>None\<close>.
\<close>

definition js_div :: "real \<Rightarrow> real \<Rightarrow> real option" where
  "js_div x y = (if y = 0 then None else Some (x / y))"


definition getIntersectionPoint :: "Point \<Rightarrow> Point \<Rightarrow> Point \<Rightarrow> Point \<Rightarrow> real \<Rightarrow> Point option" where
  "getIntersectionPoint p1 p2 q1 q2 delta =
     (let a1 = snd p2 - snd p1;
          b1 = fst p1 - fst p2;
          c1 = a1 * fst p1 + b1 * snd p1;
          a2 = snd q2 - snd q1;
          b2 = fst q1 - fst q2;
          c2 = a2 * fst q1 + b2 * snd q1;
          det = a1 * b2 - a2 * b1
      in if \<not> scalarsEqual det 0 delta
         then do {
           x \<leftarrow> js_div (b2 * c1 - b1 * c2) det;
           y \<leftarrow> js_div (a1 * c2 - a2 * c1) det;
           Some (x, y)
         }
         else Some (0, 0))"

text \<open>The divisions of \<open>lineSegmentsIntersect\<close> are guarded by an exact test.\<close>

definition lineSegmentsIntersect :: "Point \<Rightarrow> Point \<Rightarrow> Point \<Rightarrow> Point \<Rightarrow> bool" where
  "lineSegmentsIntersect p1 p2 q1 q2 =
     (let dx = fst p2 - fst p1;
          dy = snd p2 - snd p1;
          da = fst q2 - fst q1;
          db = snd q2 - snd q1
      in if da * dy - db * dx = 0 then False
         else
           let s = (dx * (snd q1 - snd p1) + dy * (fst p1 - fst q1)) / (da * dy - db * dx);
               t = (da * (snd p1 - snd q1) + db * (fst q1 - fst p1)) / (db * dx - da * dy)
           in s \<ge> 0 \<and> s \<le> 1 \<and> t \<ge> 0 \<and> t \<le> 1)"

section \<open>Visibility\<close>



fun canSee2_edges :: "Polygon \<Rightarrow> nat \<Rightarrow> nat \<Rightarrow> nat list \<Rightarrow> bool option" where
  "canSee2_edges polygon a b [] = Some True"
| "canSee2_edges polygon a b (i # rest) =
     (if i = a \<or> i = b \<or> (i + 1) mod length polygon = a \<or> (i + 1) mod length polygon = b
      then canSee2_edges polygon a b rest
      else do {
        pa \<leftarrow> polygonAt polygon (int a);
        pb \<leftarrow> polygonAt polygon (int b);
        vi \<leftarrow> polygonAt polygon (int i);
        pn \<leftarrow> polygonAt polygon (int i + 1);
        if lineSegmentsIntersect pa pb vi pn then Some False
        else canSee2_edges polygon a b rest
      })"

definition polygonCanSee2 :: "Polygon \<Rightarrow> nat \<Rightarrow> nat \<Rightarrow> bool option" where
  "polygonCanSee2 polygon a b = canSee2_edges polygon a b [0..<length polygon]"

subsection \<open>A reflex vertex does not see itself or its neighbours\<close>




lemma polygonAt_Some_length: "polygonAt polygon i = Some p \<Longrightarrow> polygon \<noteq> []"
  by (auto simp: polygonAt_def)








section \<open>Exhaustive decomposition\<close>

text \<open>
  \<open>getCutEdges\<close>: the two nested loops carry \<open>min\<close> and \<open>nDiags\<close>. The recursion
  is on the two copies cut off along a diagonal from a reflex vertex to a vertex it
  sees; a reflex vertex sees neither itself nor its neighbours, so both copies have
  fewer vertices than the polygon.
\<close>

declare Option.bind_cong [fundef_cong]












section \<open>Heuristic decomposition\<close>

text \<open>
  The three arrays that \<open>quickDecomp\<close> appends to and passes to its recursive calls.
\<close>

record accumulators =
  result :: "Polygon list"
  reflexVertices :: "Point list"
  steinerPoints :: "Point list"

text \<open>The closest lower and upper intersection found so far at a reflex vertex.\<close>

record candidates =
  lowerDist :: real
  lowerInt :: Point
  lowerIndex :: nat
  upperDist :: real
  upperInt :: Point
  upperIndex :: nat

text \<open>
  The body of the loop over \<open>j\<close> at the reflex vertex \<open>i\<close>. \<open>getIntersectionPoint\<close> is
  called with four arguments, so its \<open>delta\<close> is the default \<open>0\<close>.
\<close>

definition scanEdge :: "Polygon \<Rightarrow> nat \<Rightarrow> nat \<Rightarrow> candidates \<Rightarrow> candidates option" where
  "scanEdge poly i j c =
     do {
       vp \<leftarrow> polygonAt poly (int i - 1);
       vi \<leftarrow> polygonAt poly (int i);
       vn \<leftarrow> polygonAt poly (int i + 1);
       vj \<leftarrow> polygonAt poly (int j);
       vjp \<leftarrow> polygonAt poly (int j - 1);
       vjn \<leftarrow> polygonAt poly (int j + 1);
       let c1 =
         (if isLeft vp vi vj \<and> isRightOn vp vi vjp
          then (case getIntersectionPoint vp vi vj vjp 0 of
                  Some p \<Rightarrow>
                    if isRight vn vi p
                    then (let d = sqdist (poly ! i) p in
                          if d < lowerDist c
                          then c\<lparr>lowerDist := d, lowerInt := p, lowerIndex := j\<rparr>
                          else c)
                    else c
                | None \<Rightarrow> c)
          else c);
       let c2 =
         (if isLeft vn vi vjn \<and> isRightOn vn vi vj
          then (case getIntersectionPoint vn vi vj vjn 0 of
                  Some p \<Rightarrow>
                    if isLeft vp vi p
                    then (let d = sqdist (poly ! i) p in
                          if d < upperDist c1
                          then c1\<lparr>upperDist := d, upperInt := p, upperIndex := j\<rparr>
                          else c1)
                    else c1
                | None \<Rightarrow> c1)
          else c1);
       Some c2
     }"

text \<open>
  The body of the loop that looks for the closest visible vertex between the two
  intersections; \<open>j\<close> may exceed the length and is reduced only when it is stored.
\<close>

definition closerVertex :: "Polygon \<Rightarrow> nat \<Rightarrow> nat \<Rightarrow> real \<times> nat \<Rightarrow> (real \<times> nat) option" where
  "closerVertex poly i j best =
     do {
       vp \<leftarrow> polygonAt poly (int i - 1);
       vi \<leftarrow> polygonAt poly (int i);
       vn \<leftarrow> polygonAt poly (int i + 1);
       vj \<leftarrow> polygonAt poly (int j);
       if isLeftOn vp vi vj \<and> isRightOn vn vi vj
       then (let d = sqdist vi vj in
             if d < fst best
             then do {
               see \<leftarrow> polygonCanSee2 poly i j;
               Some (if see then (d, j mod length poly) else best)
             }
             else Some best)
       else Some best
     }"

text \<open>
  What one call of \<open>quickDecomp\<close> decides from the polygon alone: it is convex; or it
  has a first reflex vertex and the call returns early; or it is cut at that vertex
  into a lower and an upper polygon, with or without a Steiner point.
\<close>

datatype plan = Convex | GiveUp Point | Cut Point "Point option" Polygon Polygon

definition splitAt :: "Polygon \<Rightarrow> nat \<Rightarrow> plan option" where
  "splitAt poly i =
     do {
       c \<leftarrow> fold (\<lambda>j acc. do { c \<leftarrow> acc; scanEdge poly i j c }) [0..<length poly]
              (Some \<lparr>lowerDist = MAX_VALUE, lowerInt = (0, 0), lowerIndex = 0,
                     upperDist = MAX_VALUE, upperInt = (0, 0), upperIndex = 0\<rparr>);
       if lowerIndex c = (upperIndex c + 1) mod length poly
       then
         (let p = ((fst (lowerInt c) + fst (upperInt c)) / 2,
                   (snd (lowerInt c) + snd (upperInt c)) / 2)
          in Some
            (if i < upperIndex c
             then Cut (poly ! i) (Some p)
                    (polygonAppend [] poly i (upperIndex c + 1) @ [p])
                    (polygonAppend
                       (if lowerIndex c \<noteq> 0 then polygonAppend [p] poly (lowerIndex c) (length poly)
                        else [p])
                       poly 0 (i + 1))
             else Cut (poly ! i) (Some p)
                    (polygonAppend (if i \<noteq> 0 then polygonAppend [] poly i (length poly) else [])
                       poly 0 (upperIndex c + 1) @ [p])
                    (polygonAppend [p] poly (lowerIndex c) (i + 1))))
       else
         (let upper = (if lowerIndex c > upperIndex c then upperIndex c + length poly
                       else upperIndex c)
          in if upper < lowerIndex c then Some (GiveUp (poly ! i))
             else do {
               best \<leftarrow> fold (\<lambda>j acc. do { b \<leftarrow> acc; closerVertex poly i j b })
                         [lowerIndex c..<upper + 1] (Some (MAX_VALUE, 0));
               let closestIndex = snd best;
               Some
                 (if i < closestIndex
                  then Cut (poly ! i) None
                         (polygonAppend [] poly i (closestIndex + 1))
                         (polygonAppend
                            (if closestIndex \<noteq> 0
                             then polygonAppend [] poly closestIndex (length poly) else [])
                            poly 0 (i + 1))
                  else Cut (poly ! i) None
                         (polygonAppend (if i \<noteq> 0 then polygonAppend [] poly i (length poly) else [])
                            poly 0 (closestIndex + 1))
                         (polygonAppend [] poly closestIndex (i + 1)))
             })
     }"

text \<open>The loop over \<open>i\<close>: the first reflex vertex decides.\<close>

fun scanReflex :: "Polygon \<Rightarrow> nat list \<Rightarrow> plan option" where
  "scanReflex poly [] = Some Convex"
| "scanReflex poly (i # rest) =
     do {
       reflex \<leftarrow> polygonIsReflex poly (int i);
       if reflex then splitAt poly i else scanReflex poly rest
     }"

text \<open>
  \<open>quickDecomp\<close> with its seven parameters, the three arrays as one record. The warning
  printed when the depth limit is reached is not modelled.
\<close>

function quickDecomp ::
  "Polygon \<Rightarrow> accumulators \<Rightarrow> real \<Rightarrow> int \<Rightarrow> int \<Rightarrow> accumulators option" where
  "quickDecomp polygon acc delta maxlevel level =
     (if length polygon < 3 then Some acc
      else if level + 1 > maxlevel then Some acc
      else do {
        pl \<leftarrow> scanReflex polygon [0..<length polygon];
        case pl of
          Convex \<Rightarrow> Some (acc\<lparr>result := result acc @ [polygon]\<rparr>)
        | GiveUp v \<Rightarrow> Some (acc\<lparr>reflexVertices := reflexVertices acc @ [v]\<rparr>)
        | Cut v steiner lowerPoly upperPoly \<Rightarrow>
            (let acc1 = acc\<lparr>reflexVertices := reflexVertices acc @ [v],
                             steinerPoints := steinerPoints acc @ (case steiner of None \<Rightarrow> [] | Some p \<Rightarrow> [p])\<rparr>
             in if length lowerPoly < length upperPoly
                then do {
                  acc2 \<leftarrow> quickDecomp lowerPoly acc1 delta maxlevel (level + 1);
                  quickDecomp upperPoly acc2 delta maxlevel (level + 1)
                }
                else do {
                  acc2 \<leftarrow> quickDecomp upperPoly acc1 delta maxlevel (level + 1);
                  quickDecomp lowerPoly acc2 delta maxlevel (level + 1)
                })
      })"
  by pat_completeness auto
termination
  by (relation "measure (\<lambda>(polygon, acc, delta, maxlevel, level). nat (maxlevel - level))") auto

declare quickDecomp.simps [simp del]

section \<open>Normalization\<close>

text \<open>
  \<open>removeDuplicatePoints\<close>. \<open>splice\<close> is \<open>polygon.splice(i, 1)\<close>. The inner loop runs
  \<open>j = i - 1, ..., 0\<close> with \<open>pi\<close> read once before it; its \<open>continue\<close> goes on with
  the next \<open>j\<close>. The outer loop runs \<open>i = length - 1, ..., 1\<close>.
\<close>

definition splice :: "'a list \<Rightarrow> nat \<Rightarrow> 'a list" where
  "splice xs i = take i xs @ drop (Suc i) xs"

fun removeDuplicates_inner :: "Point \<Rightarrow> nat \<Rightarrow> real \<Rightarrow> nat \<Rightarrow> Polygon \<Rightarrow> Polygon" where
  "removeDuplicates_inner p i precision 0 polygon = polygon"
| "removeDuplicates_inner p i precision (Suc j) polygon =
     removeDuplicates_inner p i precision j
       (if pointsEqual p (polygon ! j) precision then splice polygon i else polygon)"

fun removeDuplicates_outer :: "real \<Rightarrow> nat \<Rightarrow> Polygon \<Rightarrow> Polygon" where
  "removeDuplicates_outer precision 0 polygon = polygon"
| "removeDuplicates_outer precision (Suc i) polygon =
     removeDuplicates_outer precision i
       (removeDuplicates_inner (polygon ! Suc i) (Suc i) precision (Suc i) polygon)"

definition removeDuplicatePoints :: "Polygon \<Rightarrow> real \<Rightarrow> Polygon" where
  "removeDuplicatePoints polygon precision =
     removeDuplicates_outer precision (length polygon - 1) polygon"

section \<open>Verification\<close>

subsection \<open>Cyclic indexing\<close>

text \<open>
  The lookup of a non-empty polygon is undefined exactly at the negative multiples of its
  length.
\<close>

lemma polygonAt_undefined_iff:
  assumes "polygon \<noteq> []"
  shows "polygonAt polygon i = None \<longleftrightarrow> i < 0 \<and> int (length polygon) dvd i"
proof (cases "0 \<le> i")
  case True
  then show ?thesis using polygonAt_nonneg [OF True assms] by simp
next
  case False
  let ?s = "int (length polygon)"
  have s: "0 < ?s" using assms by simp
  have neg: "i < 0" using False by simp
  have r: "js_rem i ?s = - ((- i) mod ?s)" using neg s by (simp add: js_rem_def)
  have b: "0 \<le> (- i) mod ?s" "(- i) mod ?s < ?s" using s by simp_all
  have d: "(- i) mod ?s = 0 \<longleftrightarrow> ?s dvd i" by (simp add: dvd_eq_mod_eq_0 [symmetric])
  have b': "(- i) mod ?s \<le> ?s" using b(2) by simp
  have "polygonAt polygon i = None \<longleftrightarrow> \<not> (- ((- i) mod ?s) + ?s < ?s)"
    using neg s b b' by (auto simp: polygonAt_def array_get_def Let_def r)
  also have "\<dots> \<longleftrightarrow> (- i) mod ?s = 0" using b by auto
  finally show ?thesis using d neg by simp
qed

text \<open>
  C2 (contradicted by the code). The claim says that every integer index, negative ones
  included, is mapped into \<open>[0, n)\<close>. For a negative multiple of the length the
  remainder is zero, the code adds the length and reads one past the end: the lookup
  is \<open>undefined\<close>. Shown for a triangle at \<open>i = -3\<close> and for a one-vertex polygon at
  \<open>i = -1\<close>, the index that \<open>makeCCW\<close> and \<open>polygonIsReflex\<close> pass for vertex \<open>0\<close>.
\<close>

theorem polygonAt_negative_multiple_undefined:
  "polygonAt [(0, 0), (1, 0), (0, 1)] (- 3) = None \<and> polygonAt [(5, 7)] (- 1) = None"
  by (simp add: polygonAt_def array_get_def js_rem_def)

subsection \<open>Convex input\<close>



text \<open>The two guards of \<open>quickDecomp\<close>: what they stop is not added to \<open>result\<close>.\<close>

lemma quickDecomp_undersized:
  "length polygon < 3 \<Longrightarrow> quickDecomp polygon acc delta maxlevel level = Some acc"
  by (subst quickDecomp.simps) simp

lemma quickDecomp_depth_limit:
  "maxlevel \<le> level \<Longrightarrow> quickDecomp polygon acc delta maxlevel level = Some acc"
  by (subst quickDecomp.simps) simp




subsection \<open>Concrete polygons\<close>











subsection \<open>The claims on the decomposers\<close>





text \<open>
  C10. The value of \<open>delta\<close> has no influence on \<open>quickDecomp\<close>: with all other
  arguments equal, two values of \<open>delta\<close> give the same \<open>result\<close>, \<open>reflexVertices\<close> and
  \<open>steinerPoints\<close> (and the same termination behaviour). The parameter is only handed
  on to the recursive calls.
\<close>

theorem quickDecomp_delta_irrelevant:
  "quickDecomp polygon acc d1 maxlevel level = quickDecomp polygon acc d2 maxlevel level"
proof (induction polygon acc d1 maxlevel level rule: quickDecomp.induct)
  case (1 polygon acc delta maxlevel level)
  show ?case
    unfolding quickDecomp.simps [of polygon acc delta] quickDecomp.simps [of polygon acc d2]
    using 1
    by (auto simp: Let_def split: plan.splits Option.bind_splits)
qed

subsection \<open>Slicing failure\<close>










subsection \<open>Line intersection\<close>










subsection \<open>Duplicate points\<close>

lemma splice_append_length: "length pre = i \<Longrightarrow> splice (pre @ rest) i = pre @ drop 1 rest"
  by (simp add: splice_def)

lemma removeDuplicates_inner_shape:
  assumes "length pre = i" "k \<le> i"
  shows "\<exists>m. removeDuplicates_inner p i precision k (pre @ rest) = pre @ drop m rest
             \<and> (m = 0 \<longleftrightarrow> (\<forall>j<k. \<not> pointsEqual p (pre ! j) precision))"
  using assms(2)
proof (induction k arbitrary: rest)
  case 0
  show ?case by (intro exI [of _ 0]) simp
next
  case (Suc k)
  have nth: "(pre @ rest) ! k = pre ! k" using Suc.prems assms(1) by (simp add: nth_append)
  show ?case
  proof (cases "pointsEqual p (pre ! k) precision")
    case True
    obtain m where m: "removeDuplicates_inner p i precision k (pre @ drop 1 rest) = pre @ drop m (drop 1 rest)"
      using Suc.IH [of "drop 1 rest"] Suc.prems by auto
    show ?thesis
      using True m nth splice_append_length [OF assms(1), of rest]
      by (intro exI [of _ "Suc m"]) auto
  next
    case False
    obtain m where m: "removeDuplicates_inner p i precision k (pre @ rest) = pre @ drop m rest"
      "m = 0 \<longleftrightarrow> (\<forall>j<k. \<not> pointsEqual p (pre ! j) precision)"
      using Suc.IH [of rest] Suc.prems by auto
    show ?thesis
      using False m nth by (intro exI [of _ m]) (auto simp: less_Suc_eq)
  qed
qed

text \<open>One round of the outer loop, at the vertex \<open>x\<close> with the vertices \<open>pre\<close> before it.\<close>

lemma removeDuplicates_outer_step:
  assumes "length pre = Suc i"
  shows "\<exists>m. removeDuplicates_outer precision (Suc i) (pre @ x # post)
               = removeDuplicates_outer precision i (pre @ drop m (x # post))
             \<and> (m = 0 \<longleftrightarrow> (\<forall>z \<in> set pre. \<not> pointsEqual x z precision))"
proof -
  obtain m where m: "removeDuplicates_inner x (Suc i) precision (Suc i) (pre @ x # post) = pre @ drop m (x # post)"
    "m = 0 \<longleftrightarrow> (\<forall>j<Suc i. \<not> pointsEqual x (pre ! j) precision)"
    using removeDuplicates_inner_shape [OF assms, of "Suc i" x precision "x # post"] by auto
  have "(\<forall>j<Suc i. \<not> pointsEqual x (pre ! j) precision) \<longleftrightarrow> (\<forall>z \<in> set pre. \<not> pointsEqual x z precision)"
    using assms by (metis in_set_conv_nth)
  moreover have "(pre @ x # post) ! Suc i = x" using assms by (simp add: nth_append)
  ultimately show ?thesis using m by (intro exI [of _ m]) simp
qed

text \<open>No vertex coincides with an earlier one.\<close>

fun no_duplicates :: "real \<Rightarrow> Polygon \<Rightarrow> bool" where
  "no_duplicates precision [] = True"
| "no_duplicates precision (x # xs) =
     ((\<forall>y \<in> set xs. \<not> pointsEqual y x precision) \<and> no_duplicates precision xs)"

lemma no_duplicates_drop: "no_duplicates precision xs \<Longrightarrow> no_duplicates precision (drop m xs)"
proof (induction xs arbitrary: m)
  case Nil
  then show ?case by simp
next
  case (Cons x xs)
  then show ?case by (cases m) simp_all
qed

lemma no_duplicates_append:
  "no_duplicates precision (xs @ ys) \<longleftrightarrow>
     no_duplicates precision xs \<and> no_duplicates precision ys
     \<and> (\<forall>y \<in> set ys. \<forall>x \<in> set xs. \<not> pointsEqual y x precision)"
  by (induction xs) auto

lemma removeDuplicates_outer_no_duplicates:
  assumes "length pre = Suc i" "no_duplicates precision post"
    "\<forall>y \<in> set post. \<forall>x \<in> set pre. \<not> pointsEqual y x precision"
  shows "no_duplicates precision (removeDuplicates_outer precision i (pre @ post))"
  using assms
proof (induction i arbitrary: pre post)
  case 0
  then obtain a where "pre = [a]" by (cases pre) auto
  then show ?case using 0 by simp
next
  case (Suc i)
  obtain pre' x where pre: "pre = pre' @ [x]" "length pre' = Suc i"
    using Suc.prems(1) by (cases pre rule: rev_cases) auto
  obtain m where m: "removeDuplicates_outer precision (Suc i) (pre' @ x # post)
               = removeDuplicates_outer precision i (pre' @ drop m (x # post))"
             "m = 0 \<longleftrightarrow> (\<forall>z \<in> set pre'. \<not> pointsEqual x z precision)"
    using removeDuplicates_outer_step [OF pre(2), of precision x post] by auto
  have xp: "no_duplicates precision (x # post)" using Suc.prems pre by simp
  have d: "no_duplicates precision (drop m (x # post))" by (rule no_duplicates_drop [OF xp])
  have "\<forall>y \<in> set (drop m (x # post)). \<forall>z \<in> set pre'. \<not> pointsEqual y z precision"
  proof (cases m)
    case 0
    then show ?thesis using m(2) Suc.prems(3) pre by auto
  next
    case (Suc k)
    then have "set (drop m (x # post)) \<subseteq> set post" by (simp add: set_drop_subset)
    then show ?thesis using Suc.prems(3) pre by auto
  qed
  then have "no_duplicates precision (removeDuplicates_outer precision i (pre' @ drop m (x # post)))"
    using Suc.IH [OF pre(2) d] by simp
  then show ?case using m(1) pre by simp
qed

lemma removeDuplicatePoints_no_duplicates:
  "no_duplicates precision (removeDuplicatePoints polygon precision)"
proof (cases "polygon = []")
  case True
  then show ?thesis by (simp add: removeDuplicatePoints_def)
next
  case False
  then have "length polygon = Suc (length polygon - 1)" by simp
  then show ?thesis
    using removeDuplicates_outer_no_duplicates [of polygon "length polygon - 1" precision "[]"]
    by (simp add: removeDuplicatePoints_def)
qed

lemma removeDuplicates_outer_fixed:
  assumes "length pre = Suc i" "no_duplicates precision (pre @ post)"
  shows "removeDuplicates_outer precision i (pre @ post) = pre @ post"
  using assms
proof (induction i arbitrary: pre post)
  case 0
  then show ?case by simp
next
  case (Suc i)
  obtain pre' x where pre: "pre = pre' @ [x]" "length pre' = Suc i"
    using Suc.prems(1) by (cases pre rule: rev_cases) auto
  obtain m where m: "removeDuplicates_outer precision (Suc i) (pre' @ x # post)
               = removeDuplicates_outer precision i (pre' @ drop m (x # post))"
             "m = 0 \<longleftrightarrow> (\<forall>z \<in> set pre'. \<not> pointsEqual x z precision)"
    using removeDuplicates_outer_step [OF pre(2), of precision x post] by auto
  have "\<forall>z \<in> set pre'. \<not> pointsEqual x z precision"
    using Suc.prems(2) pre by (auto simp: no_duplicates_append)
  then have "m = 0" using m(2) by simp
  then have "removeDuplicates_outer precision (Suc i) (pre' @ x # post)
             = removeDuplicates_outer precision i (pre' @ (x # post))"
    using m(1) by simp
  also have "\<dots> = pre' @ (x # post)"
    using Suc.IH [OF pre(2), of "x # post"] Suc.prems(2) pre by simp
  finally show ?case using pre by simp
qed

lemma removeDuplicatePoints_fixed:
  assumes "no_duplicates precision polygon"
  shows "removeDuplicatePoints polygon precision = polygon"
proof (cases "polygon = []")
  case True
  then show ?thesis by (simp add: removeDuplicatePoints_def)
next
  case False
  then have "length polygon = Suc (length polygon - 1)" by simp
  then show ?thesis
    using removeDuplicates_outer_fixed [of polygon "length polygon - 1" precision "[]"] assms
    by (simp add: removeDuplicatePoints_def)
qed

text \<open>
  C7. \<open>removeDuplicatePoints\<close> is idempotent: a second application, with the same
  precision, leaves the polygon as the first one left it. After one pass no remaining
  vertex coincides with an earlier remaining one, so a second pass removes nothing.
\<close>

theorem removeDuplicatePoints_idempotent:
  "removeDuplicatePoints (removeDuplicatePoints polygon precision) precision
   = removeDuplicatePoints polygon precision"
  by (rule removeDuplicatePoints_fixed [OF removeDuplicatePoints_no_duplicates])

text \<open>
  C6 (contradicted by the code). The vertex \<open>(1, 1)\<close> coincides with no other vertex of
  \<open>[[0,0],[0,0],[0,0],[1,1]]\<close>, yet \<open>removeDuplicatePoints\<close> removes it. At \<open>i = 2\<close>
  the inner loop finds two earlier copies of \<open>(0, 0)\<close>; its \<open>continue\<close> does not leave
  the loop, so \<open>splice(2, 1)\<close> runs twice and the second time removes the vertex that
  has moved to index \<open>2\<close>.
\<close>

theorem removeDuplicatePoints_drops_unique_vertex:
  "\<not> pointsEqual (1, 1) (0, 0) 0
   \<and> removeDuplicatePoints [(0, 0), (0, 0), (0, 0), (1, 1)] 0 = [(0, 0)]"
  by (simp add: removeDuplicatePoints_def eval_nat_numeral pointsEqual_def scalarsEqual_def splice_def)

subsection \<open>Orientation\<close>

























subsection \<open>Convexity of the pieces and their area\<close>














text \<open>The signed area of a polygon by the shoelace formula.\<close>

definition cross :: "Point \<Rightarrow> Point \<Rightarrow> real" where
  "cross a b = fst a * snd b - fst b * snd a"




lemma cross_self: "cross a a = 0"
  by (simp add: cross_def)



































end
